theory Spec2Isabelle
  imports Main
begin

section \<open>Python values used by archiver.py\<close>

text \<open>
  Python \<open>str\<close> values are modelled as \<^typ>\<open>string\<close>: a list of code points below 256.
  Exceptions are values; the model holds instances of \<open>Exception\<close> only, the ones an
  \<open>except Exception\<close> clause catches. \<open>ValueError\<close> is kept apart because \<open>main\<close> has a
  clause of its own for it. The string carried by an exception is \<open>str(e)\<close>.
\<close>

datatype exn = ValueError string | Exception string

fun str_exn :: "exn \<Rightarrow> string" where
  "str_exn (ValueError s) = s"
| "str_exn (Exception s) = s"

text \<open>\<open>str(n)\<close> and \<open>f"{n}"\<close> for a Python int: decimal digits, a minus sign when negative.\<close>

definition digit :: "nat \<Rightarrow> char" where
  "digit n = ''0123456789'' ! n"

fun str_nat :: "nat \<Rightarrow> string" where
  "str_nat n =
     (if n < 10 then [digit n] else str_nat (n div 10) @ [digit (n mod 10)])"

declare str_nat.simps [simp del]

definition str_int :: "int \<Rightarrow> string" where
  "str_int i = (if i < 0 then CHR ''-'' # str_nat (nat (- i)) else str_nat (nat i))"

section \<open>The parameter space\<close>

text \<open>
  \<^verbatim>\<open>
  display_types = range(1, 21)
  control_types = range(0, 4)
  pb_types = range(1, 4)
  combinations = [(dt, ct, pt) for dt in display_types
                  for ct in control_types for pt in pb_types]
  \<close>
\<close>

definition display_types :: "int list" where
  "display_types = [1..20]"

definition control_types :: "int list" where
  "control_types = [0..3]"

definition pb_types :: "int list" where
  "pb_types = [1..3]"

definition combinations :: "(int \<times> int \<times> int) list" where
  "combinations =
     concat (map (\<lambda>dt. concat (map (\<lambda>ct. map (\<lambda>pt. (dt, ct, pt)) pb_types) control_types))
       display_types)"

section \<open>Configuration: \<open>LeaderboardArchiver.__init__\<close>\<close>

text \<open>
  \<^verbatim>\<open>
  self.auth_token = os.getenv('USER_TOKEN')
  self.dblink = os.getenv('DB_LINK')
  if not self.auth_token or not self.dblink:
      raise ValueError("Missing required environment variables: USER_TOKEN and DB_LINK")
  self.base_url = f"{self.dblink}/api/getScores"
  \<close>
  The process environment is a map from names to values; \<open>os.getenv\<close> is the lookup, with
  \<open>None\<close> for a name that is not set. \<open>not v\<close> holds for \<open>None\<close> and for the empty string.
\<close>

record archiver =
  auth_token :: string
  dblink :: string
  base_url :: string

fun falsy :: "string option \<Rightarrow> bool" where
  "falsy None = True"
| "falsy (Some s) = (s = [])"

definition init :: "(string \<rightharpoonup> string) \<Rightarrow> exn + archiver" where
  "init environ =
     (let auth_token = environ ''USER_TOKEN'';
          dblink = environ ''DB_LINK''
      in if falsy auth_token \<or> falsy dblink
         then Inl (ValueError ''Missing required environment variables: USER_TOKEN and DB_LINK'')
         else (case (auth_token, dblink) of
                 (Some tok, Some link) \<Rightarrow>
                   Inr \<lparr> auth_token = tok, dblink = link, base_url = link @ ''/api/getScores'' \<rparr>
               | _ \<Rightarrow>
                   Inl (ValueError
                     ''Missing required environment variables: USER_TOKEN and DB_LINK'')))"

section \<open>The world outside the program\<close>

text \<open>
  What the program does to the outside is kept in a record that every effectful function
  takes and returns: the requests posted so far, the files on disk (path to content), the
  directories created, and the log records (level and message) in the order they were
  emitted.
\<close>

datatype level = INFO | ERROR

record request =
  req_url :: string
  req_json :: "(string \<times> int) list"
  req_headers :: "(string \<times> string) list"

record world =
  posts :: "request list"
  files :: "string \<rightharpoonup> string"
  dirs :: "string set"
  log :: "(level \<times> string) list"

definition logger_info :: "string \<Rightarrow> world \<Rightarrow> world" where
  "logger_info msg w = w\<lparr> log := log w @ [(INFO, msg)] \<rparr>"

definition logger_error :: "string \<Rightarrow> world \<Rightarrow> world" where
  "logger_error msg w = w\<lparr> log := log w @ [(ERROR, msg)] \<rparr>"

section \<open>The fetch: \<open>LeaderboardArchiver.get_scores\<close>\<close>

text \<open>
  The HTTP client is a library. A request is what \<open>session.post\<close> is given; the session is
  the function that answers it, with an exception (\<open>Inl\<close>) or a response. Of the response
  the code reads \<open>status\<close>, awaits \<open>text()\<close>, which may raise, and reads the attribute
  \<open>statusText\<close>, which raises \<open>AttributeError\<close> on a response object that has no such
  attribute.
\<close>

record response =
  resp_status :: int
  resp_text :: "exn + string"
  resp_statusText :: "exn + string"

type_synonym session = "request \<Rightarrow> exn + response"

definition post :: "session \<Rightarrow> request \<Rightarrow> world \<Rightarrow> (exn + response) \<times> world" where
  "post session req w = (session req, w\<lparr> posts := posts w @ [req] \<rparr>)"

text \<open>The dict that \<open>get_scores\<close> returns; a key that is not in the dict is \<open>None\<close>.\<close>

record result =
  status :: bool
  data :: "string option"
  message :: "string option"
  display_type :: int
  control_type :: int
  pb_type :: int

text \<open>
  The body of the \<open>try\<close> block: it returns a result or raises.
  \<^verbatim>\<open>
  async with session.post(self.base_url, json=payload, headers=headers) as response:
      if response.status == 200:
          text_data = await response.text()
          return {"status": True, "data": text_data, ...}
      else:
          return {"status": False,
                  "message": f"Error: ${response.status} ${response.statusText}", ...}
  \<close>
  In an f-string \<open>$\<close> is an ordinary character, so the message holds a dollar sign before
  each interpolated value.
\<close>

definition get_scores_try ::
  "archiver \<Rightarrow> session \<Rightarrow> int \<Rightarrow> int \<Rightarrow> int \<Rightarrow> world \<Rightarrow> (exn + result) \<times> world" where
  "get_scores_try self session dt ct pt w =
     (let payload = [(''display_type'', dt), (''control_type'', ct), (''pb_type'', pt)];
          headers = [(''Authorization'', auth_token self), (''Content-Type'', ''application/json'')];
          (answer, w') =
            post session \<lparr> req_url = base_url self, req_json = payload, req_headers = headers \<rparr> w
      in case answer of
           Inl e \<Rightarrow> (Inl e, w')
         | Inr response \<Rightarrow>
             if resp_status response = 200 then
               (case resp_text response of
                  Inl e \<Rightarrow> (Inl e, w')
                | Inr text_data \<Rightarrow>
                    (Inr \<lparr> status = True, data = Some text_data, message = None,
                           display_type = dt, control_type = ct, pb_type = pt \<rparr>, w'))
             else
               (case resp_statusText response of
                  Inl e \<Rightarrow> (Inl e, w')
                | Inr status_text \<Rightarrow>
                    (Inr \<lparr> status = False, data = None,
                           message = Some (''Error: $'' @ str_int (resp_status response)
                                             @ '' $'' @ status_text),
                           display_type = dt, control_type = ct, pb_type = pt \<rparr>, w')))"

text \<open>The whole function: \<open>except Exception as e\<close> turns every raise into a result.\<close>

definition get_scores ::
  "archiver \<Rightarrow> session \<Rightarrow> int \<Rightarrow> int \<Rightarrow> int \<Rightarrow> world \<Rightarrow> result \<times> world" where
  "get_scores self session dt ct pt w =
     (case get_scores_try self session dt ct pt w of
        (Inr r, w') \<Rightarrow> (r, w')
      | (Inl e, w') \<Rightarrow>
          (\<lparr> status = False, data = None, message = Some (''Request failed: '' @ str_exn e),
             display_type = dt, control_type = ct, pb_type = pt \<rparr>, w'))"

section \<open>Serialisation: \<open>json.dumps(archive_data, separators=(',', ':'))\<close>\<close>

text \<open>
  The JSON encoder is a library; this is what it writes for a dict of strings with the
  default \<open>ensure_ascii=True\<close>. A string is quoted; the quote and the backslash are
  escaped with a backslash, the control characters 8, 9, 10, 12 and 13 by their letter,
  a printable ASCII character stands for itself and every other character is written as
  a backslash, \<open>u\<close> and four lowercase hexadecimal digits.
\<close>

definition hexdigit :: "nat \<Rightarrow> char" where
  "hexdigit n = ''0123456789abcdef'' ! n"

definition escape_char :: "char \<Rightarrow> string" where
  "escape_char c =
     (if c = CHR 0x22 then [CHR 0x5C, CHR 0x22]
      else if c = CHR 0x5C then [CHR 0x5C, CHR 0x5C]
      else if c = CHR 0x08 then [CHR 0x5C, CHR ''b'']
      else if c = CHR 0x0C then [CHR 0x5C, CHR ''f'']
      else if c = CHR 0x0A then [CHR 0x5C, CHR ''n'']
      else if c = CHR 0x0D then [CHR 0x5C, CHR ''r'']
      else if c = CHR 0x09 then [CHR 0x5C, CHR ''t'']
      else if 0x20 \<le> (of_char c :: nat) \<and> (of_char c :: nat) \<le> 0x7E then [c]
      else [CHR 0x5C, CHR ''u'', CHR ''0'', CHR ''0'',
            hexdigit (of_char c div 16), hexdigit (of_char c mod 16)])"

definition encode_basestring_ascii :: "string \<Rightarrow> string" where
  "encode_basestring_ascii s = CHR 0x22 # concat (map escape_char s) @ [CHR 0x22]"

fun join :: "string \<Rightarrow> string list \<Rightarrow> string" where
  "join sep [] = []"
| "join sep [x] = x"
| "join sep (x # y # ys) = x @ sep @ join sep (y # ys)"

text \<open>A dict of strings: the items in the order of the dict, no white space.\<close>

definition dumps_dict :: "(string \<times> string) list \<Rightarrow> string" where
  "dumps_dict kvs =
     ''{'' @ join '','' (map (\<lambda>(k, v). encode_basestring_ascii k @ '':''
                                      @ encode_basestring_ascii v) kvs) @ ''}''"

text \<open>\<open>archive_data = {"timestamp": ..., "data": all_data}\<close>, serialised.\<close>

definition json_dumps :: "string \<Rightarrow> (string \<times> string) list \<Rightarrow> string" where
  "json_dumps timestamp all_data =
     ''{'' @ encode_basestring_ascii ''timestamp'' @ '':'' @ encode_basestring_ascii timestamp
       @ '','' @ encode_basestring_ascii ''data'' @ '':'' @ dumps_dict all_data @ ''}''"

section \<open>What the libraries and the operating system do\<close>

text \<open>
  The behaviour of everything the program calls and does not define is a parameter:
  the answers of the HTTP session, the order in which \<open>asyncio.as_completed\<close> yields the
  tasks, the two readings of the clock (\<open>datetime.now().isoformat()\<close> and
  \<open>datetime.now().strftime("%Y%m%d")\<close>), the path separator of \<open>os.path.join\<close>, whether
  \<open>os.makedirs\<close>, \<open>lzma.open\<close>, the write inside the \<open>with\<close> block (with what it left in the
  file) and \<open>os.path.getsize\<close> raise, the LZMA compressor, and the text of the log line
  that reports the sizes and the floating-point ratio.
\<close>

record env =
  ClientSession :: session
  as_completed :: "(int \<times> int \<times> int) list \<Rightarrow> (int \<times> int \<times> int) list"
  now_isoformat :: string
  now_strftime :: string
  os_sep :: string
  makedirs_raises :: "exn option"
  lzma_open_raises :: "exn option"
  lzma_write_raises :: "(exn \<times> string) option"
  getsize_raises :: "exn option"
  lzma_compress :: "string \<Rightarrow> string"
  size_report :: "nat \<Rightarrow> nat \<Rightarrow> string"

section \<open>The writer: \<open>LeaderboardArchiver.compress_and_save_archive\<close>\<close>

text \<open>
  The body of the \<open>try\<close> block: it returns the path or raises, and what it did to the
  disk before raising stays done.
  \<^verbatim>\<open>
  archive_data = {"timestamp": datetime.now().isoformat(), "data": all_data}
  json_data = json.dumps(archive_data, separators=(',', ':'))
  original_size = len(json_data.encode('utf-8'))
  os.makedirs("archives", exist_ok=True)
  current_date = datetime.now().strftime("%Y%m%d")
  archive_filename = f"leaderboard_{current_date}.lzma"
  archive_path = os.path.join("archives", archive_filename)
  with lzma.open(archive_path, 'wb', preset=9) as f:
      f.write(json_data.encode('utf-8'))
  compressed_size = os.path.getsize(archive_path)
  compression_ratio = (compressed_size / original_size) * 100
  logger.info(f"LZMA archive saved: {archive_path}")
  logger.info(f"Compression: ...")
  return archive_path
  \<close>
  The serialised text is ASCII, so its UTF-8 encoding is the text itself. The division
  raises \<open>ZeroDivisionError\<close> when the original size is zero.
\<close>

definition compress_and_save_archive_try ::
  "env \<Rightarrow> (string \<times> string) list \<Rightarrow> world \<Rightarrow> (exn + string) \<times> world" where
  "compress_and_save_archive_try env all_data w =
     (let json_data = json_dumps (now_isoformat env) all_data;
          original_size = length json_data
      in case makedirs_raises env of
           Some e \<Rightarrow> (Inl e, w)
         | None \<Rightarrow>
            (let w1 = w\<lparr> dirs := insert ''archives'' (dirs w) \<rparr>;
                 current_date = now_strftime env;
                 archive_filename = ''leaderboard_'' @ current_date @ ''.lzma'';
                 archive_path = ''archives'' @ os_sep env @ archive_filename
             in case lzma_open_raises env of
                  Some e \<Rightarrow> (Inl e, w1)
                | None \<Rightarrow>
                   (case lzma_write_raises env of
                      Some (e, partial) \<Rightarrow>
                        (Inl e, w1\<lparr> files := (files w1)(archive_path \<mapsto> partial) \<rparr>)
                    | None \<Rightarrow>
                       (let w2 = w1\<lparr> files :=
                                   (files w1)(archive_path \<mapsto> lzma_compress env json_data) \<rparr>
                        in case getsize_raises env of
                             Some e \<Rightarrow> (Inl e, w2)
                           | None \<Rightarrow>
                              (let compressed_size = length (lzma_compress env json_data)
                               in if original_size = 0
                                  then (Inl (Exception ''division by zero''), w2)
                                  else (Inr archive_path,
                                        logger_info (size_report env original_size compressed_size)
                                          (logger_info (''LZMA archive saved: '' @ archive_path)
                                             w2)))))))"

text \<open>
  The whole function:
  \<^verbatim>\<open>
  except Exception as e:
      logger.error(f"Failed to compress archive: {e}")
      return None
  \<close>
\<close>

definition compress_and_save_archive ::
  "env \<Rightarrow> (string \<times> string) list \<Rightarrow> world \<Rightarrow> string option \<times> world" where
  "compress_and_save_archive env all_data w =
     (case compress_and_save_archive_try env all_data w of
        (Inr archive_path, w') \<Rightarrow> (Some archive_path, w')
      | (Inl e, w') \<Rightarrow> (None, logger_error (''Failed to compress archive: '' @ str_exn e) w'))"

section \<open>The aggregation loop of \<open>archive_all_combinations\<close>\<close>

text \<open>
  A Python dict keeps its keys in insertion order: \<open>d[k] = v\<close> replaces the value of a key
  that is present, in place, and appends a new key at the end.
\<close>

fun dict_setitem :: "('k \<times> 'v) list \<Rightarrow> 'k \<Rightarrow> 'v \<Rightarrow> ('k \<times> 'v) list" where
  "dict_setitem [] k v = [(k, v)]"
| "dict_setitem ((k', v') # kvs) k v =
     (if k' = k then (k, v) # kvs else (k', v') # dict_setitem kvs k v)"

text \<open>
  \<^verbatim>\<open>f"{result['display_type']}_{result['control_type']}_{result['pb_type']}"\<close>
\<close>

definition key :: "result \<Rightarrow> string" where
  "key r = str_int (display_type r) @ ''_'' @ str_int (control_type r) @ ''_''
             @ str_int (pb_type r)"

text \<open>The variables of the loop.\<close>

record tally =
  all_data :: "(string \<times> string) list"
  successful_archives :: int
  failed_archives :: int

text \<open>
  One turn of the loop, for one completed result:
  \<^verbatim>\<open>
  if result["status"] and "data" in result:
      key = ...
      all_data[key] = result["data"]
      successful_archives += 1
  else:
      failed_archives += 1
      logger.error(f"Failed for {...}: {result.get('message', 'Unknown error')}")
  current_progress = successful_archives + failed_archives
  if current_progress % 20 == 0:
      logger.info(f"Progress: {current_progress}/{total_combinations}")
  \<close>
\<close>

definition consume :: "int \<Rightarrow> result \<Rightarrow> tally \<times> world \<Rightarrow> tally \<times> world" where
  "consume total_combinations r tw =
     (let (t, w) = tw;
          (t', w') =
            (case (status r, data r) of
               (True, Some text_data) \<Rightarrow>
                 (t\<lparr> all_data := dict_setitem (all_data t) (key r) text_data,
                     successful_archives := successful_archives t + 1 \<rparr>, w)
             | _ \<Rightarrow>
                 (t\<lparr> failed_archives := failed_archives t + 1 \<rparr>,
                  logger_error (''Failed for '' @ key r @ '': ''
                     @ (case message r of Some m \<Rightarrow> m | None \<Rightarrow> ''Unknown error'')) w));
          current_progress = successful_archives t' + failed_archives t'
      in if current_progress mod 20 = 0
         then (t', logger_info (''Progress: '' @ str_int current_progress @ ''/''
                                  @ str_int total_combinations) w')
         else (t', w'))"

text \<open>The loop over the results in the order in which they complete.\<close>

fun aggregate :: "int \<Rightarrow> result list \<Rightarrow> tally \<times> world \<Rightarrow> tally \<times> world" where
  "aggregate total_combinations [] tw = tw"
| "aggregate total_combinations (r # rs) tw =
     aggregate total_combinations rs (consume total_combinations r tw)"

section \<open>The run: \<open>archive_all_combinations\<close> and \<open>main\<close>\<close>

text \<open>
  The tasks run concurrently and the loop takes their results as they complete. The model
  takes the tasks in the order of completion that \<open>as_completed\<close> gives, runs each fetch
  and then consumes the results in that order.
\<close>

fun run_tasks ::
  "archiver \<Rightarrow> session \<Rightarrow> (int \<times> int \<times> int) list \<Rightarrow> world \<Rightarrow> result list \<times> world" where
  "run_tasks self session [] w = ([], w)"
| "run_tasks self session ((dt, ct, pt) # tasks) w =
     (let (r, w1) = get_scores self session dt ct pt w;
          (rs, w2) = run_tasks self session tasks w1
      in (r # rs, w2))"

text \<open>
  After the loop:
  \<^verbatim>\<open>
  if successful_archives > 0:
      archive_path = self.compress_and_save_archive(all_data)
      logger.info(f"Archive saved to: {archive_path}")
  else:
      logger.error("No successful archives to compress!")
  logger.info(f"Archive completed! Successful: {successful_archives}, Failed: {failed_archives}")
  \<close>
\<close>

definition finish :: "env \<Rightarrow> tally \<times> world \<Rightarrow> world" where
  "finish env tw =
     (let (t, w) = tw;
          w' = (if successful_archives t > 0
                then (let (archive_path, w1) = compress_and_save_archive env (all_data t) w
                      in logger_info (''Archive saved to: ''
                           @ (case archive_path of None \<Rightarrow> ''None'' | Some p \<Rightarrow> p)) w1)
                else logger_error ''No successful archives to compress!'' w)
      in logger_info (''Archive completed! Successful: '' @ str_int (successful_archives t)
                        @ '', Failed: '' @ str_int (failed_archives t)) w')"

definition archive_all_combinations :: "archiver \<Rightarrow> env \<Rightarrow> world \<Rightarrow> world" where
  "archive_all_combinations self env w =
     (let total_combinations = int (length combinations);
          w0 = logger_info (''Starting archive of '' @ str_int total_combinations
                              @ '' combinations...'') w;
          (results, w1) = run_tasks self (ClientSession env) (as_completed env combinations) w0
      in finish env
           (aggregate total_combinations results
              (\<lparr> all_data = [], successful_archives = 0, failed_archives = 0 \<rparr>, w1)))"

text \<open>
  \<^verbatim>\<open>
  try:
      archiver = LeaderboardArchiver()
      await archiver.archive_all_combinations()
  except ValueError as e:
      logger.error(f"Configuration error: {e}")
  except Exception as e:
      logger.error(f"Unexpected error: {e}")
  \<close>
  In the model \<open>archive_all_combinations\<close> catches what its callees raise and does not
  raise itself, so the two handlers are reached from the constructor only.
\<close>

definition main :: "(string \<rightharpoonup> string) \<Rightarrow> env \<Rightarrow> world \<Rightarrow> world" where
  "main environ env w =
     (case init environ of
        Inr archiver \<Rightarrow> archive_all_combinations archiver env w
      | Inl (ValueError e) \<Rightarrow> logger_error (''Configuration error: '' @ e) w
      | Inl (Exception e) \<Rightarrow> logger_error (''Unexpected error: '' @ e) w)"

section \<open>Reading an archive back\<close>














section \<open>Concrete inputs\<close>

text \<open>Small inputs at which the theorems below are evaluated.\<close>

definition answering :: "response \<Rightarrow> session" where
  "answering response req = Inr response"

definition raising :: "exn \<Rightarrow> session" where
  "raising e req = Inl e"

definition example_archiver :: archiver where
  "example_archiver =
     \<lparr> auth_token = ''token'', dblink = ''http://db'', base_url = ''http://db/api/getScores'' \<rparr>"

definition empty_world :: world where
  "empty_world = \<lparr> posts = [], files = Map.empty, dirs = {}, log = [] \<rparr>"

definition response_200 :: response where
  "response_200 =
     \<lparr> resp_status = 200, resp_text = Inr ''[]'',
       resp_statusText = Inl (Exception ''no attribute statusText'') \<rparr>"

definition response_201 :: response where
  "response_201 =
     \<lparr> resp_status = 201, resp_text = Inr ''[]'', resp_statusText = Inr ''Created'' \<rparr>"

definition response_404 :: response where
  "response_404 =
     \<lparr> resp_status = 404, resp_text = Inr ''gone'',
       resp_statusText = Inl (Exception ''no attribute statusText'') \<rparr>"

definition no_size_report :: "nat \<Rightarrow> nat \<Rightarrow> string" where
  "no_size_report original_size compressed_size = []"

definition example_env :: env where
  "example_env =
     \<lparr> ClientSession = answering response_200, as_completed = rev,
       now_isoformat = ''2026-01-01T00:00:00'', now_strftime = ''20260101'', os_sep = ''/'',
       makedirs_raises = None, lzma_open_raises = None, lzma_write_raises = None,
       getsize_raises = None, lzma_compress = rev, size_report = no_size_report \<rparr>"

definition result_ok :: result where
  "result_ok = \<lparr> status = True, data = Some ''[]'', message = None,
       display_type = 1, control_type = 0, pb_type = 1 \<rparr>"

definition result_failed :: result where
  "result_failed = \<lparr> status = False, data = None, message = Some ''Request failed: timed out'',
       display_type = 1, control_type = 0, pb_type = 2 \<rparr>"

definition failing_env :: env where
  "failing_env = example_env\<lparr> ClientSession := raising (Exception ''timed out'') \<rparr>"


definition result_ok2 :: result where
  "result_ok2 = \<lparr> status = True, data = Some ''{}'', message = None,
       display_type = 1, control_type = 0, pb_type = 2 \<rparr>"


section \<open>Properties of the parameter space\<close>

lemma combinations_length: "length combinations = 240"
  by code_simp

lemma combinations_index:
  "combinations = map (\<lambda>i. (1 + i div 12, i div 3 mod 4, 1 + i mod 3)) [0..239]"
  by code_simp

lemma combinations_set: "set combinations = {1..20} \<times> {0..3} \<times> {1..3}"
  unfolding combinations_def display_types_def control_types_def pb_types_def
  by auto

lemma lex_step:
  fixes x y :: int
  assumes xy: "x < y"
  shows "1 + x div 12 < 1 + y div 12 \<or> (1 + x div 12 = 1 + y div 12 \<and>
        (x div 3 mod 4 < y div 3 mod 4 \<or> (x div 3 mod 4 = y div 3 mod 4 \<and> 1 + x mod 3 < 1 + y mod 3)))"
proof -
  have d: "x div 12 = x div 3 div 4" "y div 12 = y div 3 div 4"
    by (simp_all add: div_mult2_eq)
  have m: "x div 3 \<le> y div 3" using xy by (simp add: zdiv_mono1)
  have m2: "x div 3 div 4 \<le> y div 3 div 4" using m by (simp add: zdiv_mono1)
  have e: "x div 3 = y div 3 \<Longrightarrow> x mod 3 < y mod 3"
    using xy by (metis div_mult_mod_eq add_less_cancel_left)
  have f: "x div 3 div 4 = y div 3 div 4 \<Longrightarrow> x div 3 mod 4 = y div 3 mod 4 \<Longrightarrow> x div 3 = y div 3"
    by (metis div_mult_mod_eq)
  have g: "x div 3 div 4 = y div 3 div 4 \<Longrightarrow> x div 3 mod 4 \<le> y div 3 mod 4"
    using m by (metis div_mult_mod_eq add_le_cancel_left)
  show ?thesis
  proof (cases "x div 3 div 4 = y div 3 div 4")
    case False
    then have "x div 12 < y div 12" using m2 d by linarith
    then have "1 + x div 12 < 1 + y div 12" by linarith
    then show ?thesis by (rule disjI1)
  next
    case True
    then have "x div 12 = y div 12" by (simp only: d)
    then have q: "1 + x div 12 = 1 + y div 12" by linarith
    show ?thesis
    proof (cases "x div 3 mod 4 = y div 3 mod 4")
      case False
      then have "x div 3 mod 4 < y div 3 mod 4" using g [OF True] by linarith
      then show ?thesis using q by blast
    next
      case c: True
      have "x mod 3 < y mod 3" using e f True c by blast
      then have "1 + x mod 3 < 1 + y mod 3" by linarith
      then show ?thesis using q c by blast
    qed
  qed
qed

lemma combinations_lex:
  "sorted_wrt (\<lambda>(d, c, p) (d', c', p'). d < d' \<or> (d = d' \<and> (c < c' \<or> (c = c' \<and> p < p'))))
     combinations"
proof -
  have "sorted_wrt (\<lambda>x y. (\<lambda>(d, c, p) (d', c', p').
            d < d' \<or> (d = d' \<and> (c < c' \<or> (c = c' \<and> p < p'))))
          (1 + x div 12, x div 3 mod 4, 1 + x mod 3) (1 + y div 12, y div 3 mod 4, 1 + y mod 3))
        [0..239::int]"
  proof (rule sorted_wrt_mono_rel [OF _ sorted_wrt_upto])
    fix x y :: int
    assume "x < y"
    then show "(\<lambda>(d, c, p) (d', c', p').
            d < d' \<or> (d = d' \<and> (c < c' \<or> (c = c' \<and> p < p'))))
          (1 + x div 12, x div 3 mod 4, 1 + x mod 3) (1 + y div 12, y div 3 mod 4, 1 + y mod 3)"
      unfolding prod.case by (rule lex_step)
  qed
  then show ?thesis
    by (simp only: combinations_index sorted_wrt_map)
qed

lemma combinations_index_inj:
  "inj_on (\<lambda>i::int. (1 + i div 12, i div 3 mod 4, 1 + i mod 3)) (set [0..239])"
proof (rule inj_onI)
  fix x y :: int
  assume "(1 + x div 12, x div 3 mod 4, 1 + x mod 3) = (1 + y div 12, y div 3 mod 4, 1 + y mod 3)"
  then have a: "x div 12 = y div 12" and b: "x div 3 mod 4 = y div 3 mod 4"
    and c: "x mod 3 = y mod 3"
    by simp_all
  have d: "x div 12 = x div 3 div 4" "y div 12 = y div 3 div 4"
    by (simp_all add: div_mult2_eq)
  have "x div 3 = y div 3"
    using a b d by (metis div_mult_mod_eq)
  then show "x = y"
    using c by (metis div_mult_mod_eq)
qed

lemma combinations_distinct: "distinct combinations"
proof -
  have "distinct (map (\<lambda>i::int. (1 + i div 12, i div 3 mod 4, 1 + i mod 3)) [0..239])"
    by (simp only: distinct_map distinct_upto combinations_index_inj simp_thms)
  then show ?thesis
    by (simp only: combinations_index [symmetric])
qed

text \<open>
  Claim C2. The enumeration has exactly 240 entries, no entry occurs twice, the entries are
  exactly the triples \<open>(d, c, p)\<close> with \<open>d\<close> in 1..20, \<open>c\<close> in 0..3 and \<open>p\<close> in 1..3, and they
  come in the order of the nested comprehension: the entry at position \<open>i\<close> (from 0) is
  \<open>(1 + i div 12, i div 3 mod 4, 1 + i mod 3)\<close>, so \<open>display_type\<close> varies slowest and
  \<open>pb_type\<close> fastest, which is the strictly increasing lexicographic order.
\<close>

theorem C2_parameter_space:
  "length combinations = 240
   \<and> distinct combinations
   \<and> set combinations = {1..20} \<times> {0..3} \<times> {1..3}
   \<and> combinations = map (\<lambda>i. (1 + i div 12, i div 3 mod 4, 1 + i mod 3)) [0..239]
   \<and> sorted_wrt (\<lambda>(d, c, p) (d', c', p'). d < d' \<or> (d = d' \<and> (c < c' \<or> (c = c' \<and> p < p'))))
        combinations"
  by (intro conjI, rule combinations_length, rule combinations_distinct,
      rule combinations_set, rule combinations_index, rule combinations_lex)

section \<open>Properties of the fetch\<close>

lemma str_int_201: "str_int 201 = ''201''"
  by (simp add: str_int_def str_nat.simps digit_def)

lemma get_scores_raise:
  assumes "session \<lparr> req_url = base_url self,
             req_json = [(''display_type'', dt), (''control_type'', ct), (''pb_type'', pt)],
             req_headers = [(''Authorization'', auth_token self),
                            (''Content-Type'', ''application/json'')] \<rparr> = Inl e"
  shows "fst (get_scores self session dt ct pt w) =
           \<lparr> status = False, data = None, message = Some (''Request failed: '' @ str_exn e),
             display_type = dt, control_type = ct, pb_type = pt \<rparr>"
  using assms by (simp add: get_scores_def get_scores_try_def post_def)

lemma get_scores_response:
  assumes "session \<lparr> req_url = base_url self,
             req_json = [(''display_type'', dt), (''control_type'', ct), (''pb_type'', pt)],
             req_headers = [(''Authorization'', auth_token self),
                            (''Content-Type'', ''application/json'')] \<rparr> = Inr response"
  shows "fst (get_scores self session dt ct pt w) =
     (if resp_status response = 200 then
        (case resp_text response of
           Inr text_data \<Rightarrow> \<lparr> status = True, data = Some text_data, message = None,
             display_type = dt, control_type = ct, pb_type = pt \<rparr>
         | Inl e \<Rightarrow> \<lparr> status = False, data = None, message = Some (''Request failed: '' @ str_exn e),
             display_type = dt, control_type = ct, pb_type = pt \<rparr>)
      else
        (case resp_statusText response of
           Inr status_text \<Rightarrow> \<lparr> status = False, data = None,
             message = Some (''Error: $'' @ str_int (resp_status response) @ '' $'' @ status_text),
             display_type = dt, control_type = ct, pb_type = pt \<rparr>
         | Inl e \<Rightarrow> \<lparr> status = False, data = None, message = Some (''Request failed: '' @ str_exn e),
             display_type = dt, control_type = ct, pb_type = pt \<rparr>))"
  using assms by (simp add: get_scores_def get_scores_try_def post_def split: sum.splits)

lemma get_scores_posts:
  "posts (snd (get_scores self session dt ct pt w)) =
     posts w @ [\<lparr> req_url = base_url self,
             req_json = [(''display_type'', dt), (''control_type'', ct), (''pb_type'', pt)],
             req_headers = [(''Authorization'', auth_token self),
                            (''Content-Type'', ''application/json'')] \<rparr>]"
  by (simp add: get_scores_def get_scores_try_def post_def Let_def split: sum.splits)

text \<open>
  Claim C1, as stated, fails: a response with status 201, which is a 2xx status, with body
  \<open>[]\<close> is turned into a failure, not into a success carrying the body; and the reason of
  that failure is not \<open>Error: 201\<close>.
\<close>

theorem C1_counterexample:
  "fst (get_scores example_archiver (answering response_201) 1 0 1 empty_world) =
     \<lparr> status = False, data = None, message = Some ''Error: $201 $Created'',
       display_type = 1, control_type = 0, pb_type = 1 \<rparr>"
  by (simp add: get_scores_response answering_def response_201_def str_int_201)

text \<open>
  Claim C1, amended. For every response that the session returns: when the status is exactly
  200 and the body can be read, the result is a success that carries the body unchanged and
  the three parameters of the call; when the status is anything but 200, other 2xx codes
  included, the result is a failure: its status is false, it has no data, it has a message
  and it carries the three parameters of the call.
\<close>

theorem C1_status_200_only:
  assumes "session \<lparr> req_url = base_url self,
             req_json = [(''display_type'', dt), (''control_type'', ct), (''pb_type'', pt)],
             req_headers = [(''Authorization'', auth_token self),
                            (''Content-Type'', ''application/json'')] \<rparr> = Inr response"
  shows "(resp_status response = 200 \<and> resp_text response = Inr text_data \<longrightarrow>
            fst (get_scores self session dt ct pt w) =
              \<lparr> status = True, data = Some text_data, message = None,
                display_type = dt, control_type = ct, pb_type = pt \<rparr>)
       \<and> (resp_status response \<noteq> 200 \<longrightarrow>
            status (fst (get_scores self session dt ct pt w)) = False
          \<and> data (fst (get_scores self session dt ct pt w)) = None
          \<and> message (fst (get_scores self session dt ct pt w)) \<noteq> None
          \<and> display_type (fst (get_scores self session dt ct pt w)) = dt
          \<and> control_type (fst (get_scores self session dt ct pt w)) = ct
          \<and> pb_type (fst (get_scores self session dt ct pt w)) = pt)"
  using assms get_scores_response [of session self dt ct pt response w]
  by (simp split: sum.splits)

theorem C1_status_200_only_witness:
  "fst (get_scores example_archiver (answering response_200) 1 0 1 empty_world) =
     \<lparr> status = True, data = Some ''[]'', message = None,
       display_type = 1, control_type = 0, pb_type = 1 \<rparr>
   \<and> status (fst (get_scores example_archiver (answering response_404) 1 0 1 empty_world))
       = False"
  using C1_status_200_only [of "answering response_200" example_archiver 1 0 1 response_200
      "''[]''" empty_world]
    C1_status_200_only [of "answering response_404" example_archiver 1 0 1 response_404
      "''[]''" empty_world]
  by (simp add: answering_def response_200_def response_404_def)

text \<open>
  Claim C7. Whatever the session does, the call returns a result, which carries the three
  parameters of the call and is either a success with data or a failure with a message.
  When posting the request raises (connection error, timeout), the result is the failure
  whose message is \<open>Request failed: \<close> followed by the text of the exception; the same
  holds when the status is 200 and reading the body raises (malformed response).
\<close>

theorem C7_fetch_never_raises:
  "(session \<lparr> req_url = base_url self,
       req_json = [(''display_type'', dt), (''control_type'', ct), (''pb_type'', pt)],
       req_headers = [(''Authorization'', auth_token self),
                      (''Content-Type'', ''application/json'')] \<rparr> = Inl e \<longrightarrow>
      fst (get_scores self session dt ct pt w) =
        \<lparr> status = False, data = None, message = Some (''Request failed: '' @ str_exn e),
          display_type = dt, control_type = ct, pb_type = pt \<rparr>)
   \<and> (session \<lparr> req_url = base_url self,
       req_json = [(''display_type'', dt), (''control_type'', ct), (''pb_type'', pt)],
       req_headers = [(''Authorization'', auth_token self),
                      (''Content-Type'', ''application/json'')] \<rparr> = Inr response
      \<and> resp_status response = 200 \<and> resp_text response = Inl e \<longrightarrow>
      fst (get_scores self session dt ct pt w) =
        \<lparr> status = False, data = None, message = Some (''Request failed: '' @ str_exn e),
          display_type = dt, control_type = ct, pb_type = pt \<rparr>)
   \<and> display_type (fst (get_scores self session dt ct pt w)) = dt
   \<and> control_type (fst (get_scores self session dt ct pt w)) = ct
   \<and> pb_type (fst (get_scores self session dt ct pt w)) = pt
   \<and> (status (fst (get_scores self session dt ct pt w))
        = (data (fst (get_scores self session dt ct pt w)) \<noteq> None))
   \<and> (status (fst (get_scores self session dt ct pt w))
        = (message (fst (get_scores self session dt ct pt w)) = None))"
proof (cases "session \<lparr> req_url = base_url self,
       req_json = [(''display_type'', dt), (''control_type'', ct), (''pb_type'', pt)],
       req_headers = [(''Authorization'', auth_token self),
                      (''Content-Type'', ''application/json'')] \<rparr>")
  case (Inl a)
  then show ?thesis
    using get_scores_raise [of session self dt ct pt a w] by simp
next
  case (Inr b)
  then show ?thesis
    using get_scores_response [of session self dt ct pt b w] by (simp split: sum.splits)
qed

theorem C7_fetch_never_raises_witness:
  "fst (get_scores example_archiver (raising (Exception ''timed out'')) 1 0 1 empty_world) =
     \<lparr> status = False, data = None, message = Some ''Request failed: timed out'',
       display_type = 1, control_type = 0, pb_type = 1 \<rparr>"
  using C7_fetch_never_raises [of "raising (Exception ''timed out'')" example_archiver 1 0 1
      "Exception ''timed out''" empty_world]
  by (simp add: raising_def)

section \<open>Properties of the configuration\<close>

lemma init_missing:
  "environ ''USER_TOKEN'' = None \<or> environ ''DB_LINK'' = None
   \<or> environ ''USER_TOKEN'' = Some [] \<or> environ ''DB_LINK'' = Some [] \<Longrightarrow>
   init environ = Inl (ValueError ''Missing required environment variables: USER_TOKEN and DB_LINK'')"
  by (auto simp add: init_def Let_def split: option.splits)

lemma init_ok:
  "environ ''USER_TOKEN'' = Some tok \<Longrightarrow> environ ''DB_LINK'' = Some link \<Longrightarrow> tok \<noteq> [] \<Longrightarrow> link \<noteq> [] \<Longrightarrow>
   init environ = Inr \<lparr> auth_token = tok, dblink = link, base_url = link @ ''/api/getScores'' \<rparr>"
  by (simp add: init_def Let_def)


lemma main_posts_init_fails:
  "init environ = Inl e \<Longrightarrow> posts (main environ env w) = posts w"
  by (cases e) (simp_all add: main_def logger_error_def)

text \<open>
  Claim C9. When the authorization token or the base URL is not set, the constructor raises
  the \<open>ValueError\<close>; \<open>main\<close> then only logs the configuration error: no request has been
  posted when it returns.
\<close>

theorem C9_missing_configuration:
  assumes "environ ''USER_TOKEN'' = None \<or> environ ''DB_LINK'' = None"
  shows "init environ =
           Inl (ValueError ''Missing required environment variables: USER_TOKEN and DB_LINK'')
       \<and> main environ env w =
           logger_error (''Configuration error: ''
             @ ''Missing required environment variables: USER_TOKEN and DB_LINK'') w
       \<and> posts (main environ env w) = posts w"
proof -
  have i: "init environ =
      Inl (ValueError ''Missing required environment variables: USER_TOKEN and DB_LINK'')"
    using assms by (intro init_missing) blast
  show ?thesis
    using i main_posts_init_fails [OF i] by (simp add: main_def)
qed

theorem C9_missing_configuration_witness:
  "init [''DB_LINK'' \<mapsto> ''http://db''] =
     Inl (ValueError ''Missing required environment variables: USER_TOKEN and DB_LINK'')
   \<and> posts (main [''DB_LINK'' \<mapsto> ''http://db''] example_env empty_world) = []"
  using C9_missing_configuration [of "[''DB_LINK'' \<mapsto> ''http://db'']" example_env empty_world]
  by (simp add: empty_world_def logger_error_def)

text \<open>
  Claim C10. A value that is set to the empty string is treated as one that is not set:
  with an empty token or an empty base URL the constructor raises the same \<open>ValueError\<close>
  as with an empty environment, and \<open>main\<close> posts no request.
\<close>

theorem C10_empty_configuration:
  assumes "environ ''USER_TOKEN'' = Some [] \<or> environ ''DB_LINK'' = Some []"
  shows "init environ =
           Inl (ValueError ''Missing required environment variables: USER_TOKEN and DB_LINK'')
       \<and> init environ = init Map.empty
       \<and> posts (main environ env w) = posts w"
proof -
  have i: "init environ =
      Inl (ValueError ''Missing required environment variables: USER_TOKEN and DB_LINK'')"
    using assms by (intro init_missing) blast
  have "init Map.empty =
      Inl (ValueError ''Missing required environment variables: USER_TOKEN and DB_LINK'')"
    by (intro init_missing) simp
  then show ?thesis
    using i main_posts_init_fails [OF i] by simp
qed

theorem C10_empty_configuration_witness:
  "init [''USER_TOKEN'' \<mapsto> [], ''DB_LINK'' \<mapsto> ''http://db''] =
     Inl (ValueError ''Missing required environment variables: USER_TOKEN and DB_LINK'')"
  using C10_empty_configuration
    [of "[''USER_TOKEN'' \<mapsto> [], ''DB_LINK'' \<mapsto> ''http://db'']" example_env empty_world]
  by simp

section \<open>Properties of the keys and of the aggregation loop\<close>

lemma digit_val_all: "list_all (\<lambda>n. (of_char (digit n) :: nat) = 48 + n) [0..<10]"
  by code_simp

lemma digit_val: "n < 10 \<Longrightarrow> (of_char (digit n) :: nat) = 48 + n"
proof -
  assume "n < 10"
  then have "n \<in> set [0..<10]" by (simp only: set_upt atLeastLessThan_iff) simp
  then show ?thesis using digit_val_all by (simp only: list_all_iff)
qed

lemma digit_inj: "m < 10 \<Longrightarrow> n < 10 \<Longrightarrow> digit m = digit n \<Longrightarrow> m = n"
proof -
  assume m: "m < 10" and n: "n < 10" and e: "digit m = digit n"
  have "48 + m = (of_char (digit m) :: nat)" using digit_val [OF m] by (rule sym)
  also have "\<dots> = of_char (digit n)" by (simp only: e)
  also have "\<dots> = 48 + n" by (rule digit_val [OF n])
  finally show "m = n" by (simp only: add_left_cancel)
qed

lemma digit_in: "n < 10 \<Longrightarrow> digit n \<in> set ''0123456789''"
  unfolding digit_def by (rule nth_mem) simp

lemma str_nat_digits: "set (str_nat n) \<subseteq> set ''0123456789''"
proof (induction n rule: str_nat.induct)
  case (1 n)
  show ?case
  proof (cases "n < 10")
    case True
    then show ?thesis using digit_in [of n] by (subst str_nat.simps) simp
  next
    case False
    have "n mod 10 < 10" by simp
    then have "digit (n mod 10) \<in> set ''0123456789''" by (rule digit_in)
    then show ?thesis using False 1 by (subst str_nat.simps) simp
  qed
qed

lemma str_nat_nonempty: "str_nat n \<noteq> []"
  by (subst str_nat.simps) simp

lemma str_nat_inj: "str_nat m = str_nat n \<Longrightarrow> m = n"
proof (induction m arbitrary: n rule: str_nat.induct)
  case (1 m)
  show ?case
  proof (cases "m < 10")
    case True
    then have sm: "str_nat m = [digit m]" by (subst str_nat.simps) simp
    show ?thesis
    proof (cases "n < 10")
      case n: True
      then have "str_nat n = [digit n]" by (subst str_nat.simps) simp
      then show ?thesis using sm 1(2) True n digit_inj by simp
    next
      case False
      then have "str_nat n = str_nat (n div 10) @ [digit (n mod 10)]"
        by (subst str_nat.simps) simp
      then have "str_nat (n div 10) = []" using sm 1(2) by simp
      then show ?thesis using str_nat_nonempty by blast
    qed
  next
    case False
    then have sm: "str_nat m = str_nat (m div 10) @ [digit (m mod 10)]"
      by (subst str_nat.simps) simp
    show ?thesis
    proof (cases "n < 10")
      case True
      then have "str_nat n = [digit n]" by (subst str_nat.simps) simp
      then have "str_nat (m div 10) = []" using sm 1(2) by simp
      then show ?thesis using str_nat_nonempty by blast
    next
      case n: False
      then have sn: "str_nat n = str_nat (n div 10) @ [digit (n mod 10)]"
        by (subst str_nat.simps) simp
      from sm sn 1(2) have a: "str_nat (m div 10) = str_nat (n div 10)"
        and b: "digit (m mod 10) = digit (n mod 10)" by simp_all
      have "m div 10 = n div 10" using 1(1) [OF False a] .
      moreover have "m mod 10 = n mod 10" using b by (intro digit_inj) simp_all
      ultimately show ?thesis by (metis div_mult_mod_eq)
    qed
  qed
qed

lemma str_int_inj: "str_int i = str_int j \<Longrightarrow> i = j"
proof -
  assume e: "str_int i = str_int j"
  have nd: "\<And>n. hd (str_nat n) \<noteq> CHR ''-''"
  proof -
    fix n
    have "hd (str_nat n) \<in> set (str_nat n)" using str_nat_nonempty by simp
    then have "hd (str_nat n) \<in> set ''0123456789''" using str_nat_digits by blast
    then show "hd (str_nat n) \<noteq> CHR ''-''" by auto
  qed
  show ?thesis
  proof (cases "i < 0")
    case True
    show ?thesis
    proof (cases "j < 0")
      case j: True
      then have "str_nat (nat (- i)) = str_nat (nat (- j))" using e True by (simp add: str_int_def)
      then have "nat (- i) = nat (- j)" by (rule str_nat_inj)
      then show ?thesis using True j by linarith
    next
      case False
      then have "CHR ''-'' # str_nat (nat (- i)) = str_nat (nat j)" using e True by (simp add: str_int_def)
      then have "hd (str_nat (nat j)) = CHR ''-''" by (metis list.sel(1))
      then show ?thesis using nd by blast
    qed
  next
    case False
    show ?thesis
    proof (cases "j < 0")
      case True
      then have "CHR ''-'' # str_nat (nat (- j)) = str_nat (nat i)" using e False by (simp add: str_int_def)
      then have "hd (str_nat (nat i)) = CHR ''-''" by (metis list.sel(1))
      then show ?thesis using nd by blast
    next
      case j: False
      then have "str_nat (nat i) = str_nat (nat j)" using e False by (simp add: str_int_def)
      then have "nat i = nat j" by (rule str_nat_inj)
      then show ?thesis using False j by linarith
    qed
  qed
qed

lemma str_int_no_underscore: "CHR ''_'' \<notin> set (str_int i)"
proof -
  have "\<And>n. CHR ''_'' \<notin> set (str_nat n)" 
  proof
    fix n assume "CHR ''_'' \<in> set (str_nat n)"
    then have "CHR ''_'' \<in> set ''0123456789''" using str_nat_digits by blast
    then show False by simp
  qed
  then show ?thesis by (simp add: str_int_def)
qed

lemma split_at_sep:
  "a @ c # b = a' @ c # b' \<Longrightarrow> c \<notin> set a \<Longrightarrow> c \<notin> set a' \<Longrightarrow> a = a' \<and> b = b'"
proof (induction a arbitrary: a')
  case Nil
  then show ?case by (cases a') simp_all
next
  case (Cons x a)
  then show ?case by (cases a') simp_all
qed

lemma key_inj:
  assumes "key r = key r'"
  shows "display_type r = display_type r' \<and> control_type r = control_type r'
         \<and> pb_type r = pb_type r'"
proof -
  have e: "str_int (display_type r) @ CHR ''_'' # (str_int (control_type r) @ CHR ''_'' #
             str_int (pb_type r))
         = str_int (display_type r') @ CHR ''_'' # (str_int (control_type r') @ CHR ''_'' #
             str_int (pb_type r'))"
    using assms by (simp add: key_def)
  note s1 = split_at_sep [OF e str_int_no_underscore str_int_no_underscore]
  note s2 = split_at_sep [OF conjunct2 [OF s1] str_int_no_underscore str_int_no_underscore]
  have "display_type r = display_type r'"
    using conjunct1 [OF s1] by (rule str_int_inj)
  moreover have "control_type r = control_type r'"
    using conjunct1 [OF s2] by (rule str_int_inj)
  moreover have "pb_type r = pb_type r'"
    using conjunct2 [OF s2] by (rule str_int_inj)
  ultimately show ?thesis by blast
qed


lemma dict_setitem_new:
  "k \<notin> fst ` set kvs \<Longrightarrow> dict_setitem kvs k v = kvs @ [(k, v)]"
  by (induction kvs) auto

lemma consume_tally:
  "fst (consume tc r (t, w)) =
     (case data r of
        Some text_data \<Rightarrow>
          if status r
          then t\<lparr> all_data := dict_setitem (all_data t) (key r) text_data,
                  successful_archives := successful_archives t + 1 \<rparr>
          else t\<lparr> failed_archives := failed_archives t + 1 \<rparr>
      | None \<Rightarrow> t\<lparr> failed_archives := failed_archives t + 1 \<rparr>)"
  by (simp add: consume_def Let_def split: option.splits bool.splits)

lemma consume_world:
  "posts (snd (consume tc r (t, w))) = posts w
   \<and> files (snd (consume tc r (t, w))) = files w
   \<and> dirs (snd (consume tc r (t, w))) = dirs w"
  by (simp add: consume_def Let_def logger_info_def logger_error_def
      split: option.splits bool.splits)

lemma aggregate_counts:
  "successful_archives (fst (aggregate tc rs (t, w)))
     + failed_archives (fst (aggregate tc rs (t, w)))
   = successful_archives t + failed_archives t + int (length rs)"
proof (induction rs arbitrary: t w)
  case Nil
  show ?case by simp
next
  case (Cons r rs)
  obtain t1 w1 where c: "consume tc r (t, w) = (t1, w1)"
    by (cases "consume tc r (t, w)")
  have t1: "successful_archives t1 + failed_archives t1
              = successful_archives t + failed_archives t + 1"
    using consume_tally [of tc r t w] c by (simp split: option.splits if_splits)
  show ?case
    using Cons.IH [of t1 w1] t1 by (simp add: c)
qed

lemma aggregate_successful:
  "successful_archives (fst (aggregate tc rs (t, w)))
   = successful_archives t + int (length (filter (\<lambda>r. status r \<and> data r \<noteq> None) rs))"
proof (induction rs arbitrary: t w)
  case Nil
  show ?case by simp
next
  case (Cons r rs)
  obtain t1 w1 where c: "consume tc r (t, w) = (t1, w1)"
    by (cases "consume tc r (t, w)")
  have t1: "successful_archives t1
              = successful_archives t + (if status r \<and> data r \<noteq> None then 1 else 0)"
    using consume_tally [of tc r t w] c by (simp split: option.splits if_splits)
  show ?case
    using Cons.IH [of t1 w1] t1 by (simp add: c)
qed

lemma aggregate_all_data:
  assumes "distinct (map key (filter (\<lambda>r. status r \<and> data r \<noteq> None) rs))"
    and "\<forall>r \<in> set rs. status r \<and> data r \<noteq> None \<longrightarrow> key r \<notin> fst ` set (all_data t)"
  shows "map (\<lambda>(k, v). (k, Some v)) (all_data (fst (aggregate tc rs (t, w))))
         = map (\<lambda>(k, v). (k, Some v)) (all_data t)
           @ map (\<lambda>r. (key r, data r)) (filter (\<lambda>r. status r \<and> data r \<noteq> None) rs)"
  using assms
proof (induction rs arbitrary: t w)
  case Nil
  show ?case by simp
next
  case (Cons r rs)
  obtain t1 w1 where c: "consume tc r (t, w) = (t1, w1)"
    by (cases "consume tc r (t, w)")
  show ?case
  proof (cases "status r \<and> data r \<noteq> None")
    case False
    then have t1: "all_data t1 = all_data t"
      using consume_tally [of tc r t w] c by (auto split: option.splits if_splits)
    have "map (\<lambda>(k, v). (k, Some v)) (all_data (fst (aggregate tc rs (t1, w1))))
         = map (\<lambda>(k, v). (k, Some v)) (all_data t1)
           @ map (\<lambda>r. (key r, data r)) (filter (\<lambda>r. status r \<and> data r \<noteq> None) rs)"
      using Cons.prems False by (intro Cons.IH) (auto simp add: t1 split: if_splits)
    then show ?thesis using False by (simp add: c t1)
  next
    case True
    then obtain text_data where d: "data r = Some text_data" by auto
    have fresh: "key r \<notin> fst ` set (all_data t)" using Cons.prems(2) True by simp
    have t1: "all_data t1 = all_data t @ [(key r, text_data)]"
      using consume_tally [of tc r t w] c True d dict_setitem_new [OF fresh] by simp
    have nk: "\<forall>r' \<in> set rs. status r' \<and> data r' \<noteq> None \<longrightarrow> key r' \<noteq> key r"
    proof (intro ballI impI)
      fix r'
      assume r': "r' \<in> set rs" and s: "status r' \<and> data r' \<noteq> None"
      have "key r \<notin> set (map key (filter (\<lambda>r. status r \<and> data r \<noteq> None) rs))"
        using Cons.prems(1) True by simp
      moreover have "key r' \<in> set (map key (filter (\<lambda>r. status r \<and> data r \<noteq> None) rs))"
        using r' s by simp
      ultimately show "key r' \<noteq> key r" by metis
    qed
    have "map (\<lambda>(k, v). (k, Some v)) (all_data (fst (aggregate tc rs (t1, w1))))
         = map (\<lambda>(k, v). (k, Some v)) (all_data t1)
           @ map (\<lambda>r. (key r, data r)) (filter (\<lambda>r. status r \<and> data r \<noteq> None) rs)"
    proof (intro Cons.IH)
      show "distinct (map key (filter (\<lambda>r. status r \<and> data r \<noteq> None) rs))"
        using Cons.prems(1) by (simp split: if_splits)
      show "\<forall>r\<in>set rs. status r \<and> data r \<noteq> None \<longrightarrow> key r \<notin> fst ` set (all_data t1)"
        using Cons.prems(2) nk by (simp add: t1)
    qed
    then show ?thesis using True d by (simp add: c t1)
  qed
qed

lemma distinct_keys:
  assumes "distinct (map (\<lambda>r. (display_type r, control_type r, pb_type r)) rs)"
  shows "distinct (map key (filter P rs))"
proof -
  have "distinct (map (\<lambda>r. (display_type r, control_type r, pb_type r)) (filter P rs))"
    using assms by (rule distinct_map_filter)
  then have d: "distinct (filter P rs)"
    and i: "inj_on (\<lambda>r. (display_type r, control_type r, pb_type r)) (set (filter P rs))"
    by (simp_all only: distinct_map)
  have "inj_on key (set (filter P rs))"
  proof (rule inj_onI)
    fix x y
    assume x: "x \<in> set (filter P rs)" and y: "y \<in> set (filter P rs)" and k: "key x = key y"
    have "(display_type x, control_type x, pb_type x) = (display_type y, control_type y, pb_type y)"
      using key_inj [OF k] by simp
    then show "x = y" using i x y by (meson inj_onD)
  qed
  then show ?thesis using d by (simp only: distinct_map simp_thms)
qed


text \<open>
  Claim C3. After the loop has consumed any list of results, the two counters add up to the
  number of results consumed. The loop consumes one result per task and the tasks have
  pairwise different parameter triples; for every such list the document has exactly
  \<open>successful_archives\<close> entries, its keys are pairwise different, and its entries are, in
  the order of consumption, the key and the data of each successful result. Two results
  with the same key have the same parameter triple, so different triples never collide.
\<close>

theorem C3_aggregation:
  "successful_archives (fst (aggregate tc rs
       (\<lparr> all_data = [], successful_archives = 0, failed_archives = 0 \<rparr>, w)))
     + failed_archives (fst (aggregate tc rs
       (\<lparr> all_data = [], successful_archives = 0, failed_archives = 0 \<rparr>, w)))
     = int (length rs)
   \<and> (distinct (map (\<lambda>r. (display_type r, control_type r, pb_type r)) rs) \<longrightarrow>
        int (length (all_data (fst (aggregate tc rs
          (\<lparr> all_data = [], successful_archives = 0, failed_archives = 0 \<rparr>, w)))))
          = successful_archives (fst (aggregate tc rs
          (\<lparr> all_data = [], successful_archives = 0, failed_archives = 0 \<rparr>, w)))
      \<and> map (\<lambda>(k, v). (k, Some v)) (all_data (fst (aggregate tc rs
          (\<lparr> all_data = [], successful_archives = 0, failed_archives = 0 \<rparr>, w))))
          = map (\<lambda>r. (key r, data r)) (filter (\<lambda>r. status r \<and> data r \<noteq> None) rs)
      \<and> distinct (map fst (all_data (fst (aggregate tc rs
          (\<lparr> all_data = [], successful_archives = 0, failed_archives = 0 \<rparr>, w))))))
   \<and> (key r = key r' \<longrightarrow>
        display_type r = display_type r' \<and> control_type r = control_type r'
        \<and> pb_type r = pb_type r')"
proof (intro conjI impI)
  let ?start = "\<lparr> all_data = [], successful_archives = 0, failed_archives = 0 \<rparr>"
  let ?t = "fst (aggregate tc rs (?start, w))"
  let ?ok = "filter (\<lambda>r. status r \<and> data r \<noteq> None) rs"
  show "successful_archives ?t + failed_archives ?t = int (length rs)"
    using aggregate_counts [of tc rs ?start w] by simp
  {
    assume d: "distinct (map (\<lambda>r. (display_type r, control_type r, pb_type r)) rs)"
    have dk: "distinct (map key ?ok)" using d by (rule distinct_keys)
    have m: "map (\<lambda>(k, v). (k, Some v)) (all_data ?t) = map (\<lambda>r. (key r, data r)) ?ok"
      using aggregate_all_data [of rs ?start tc w] dk by simp
    show "map (\<lambda>(k, v). (k, Some v)) (all_data ?t) = map (\<lambda>r. (key r, data r)) ?ok"
      by (rule m)
    have "length (map (\<lambda>(k, v). (k, Some v)) (all_data ?t))
            = length (map (\<lambda>r. (key r, data r)) ?ok)"
      by (simp only: m)
    then have l: "length (all_data ?t) = length ?ok" by simp
    show "int (length (all_data ?t)) = successful_archives ?t"
      using aggregate_successful [of tc rs ?start w] l by simp
    have "map fst (map (\<lambda>(k, v). (k, Some v)) (all_data ?t))
            = map fst (map (\<lambda>r. (key r, data r)) ?ok)"
      by (simp only: m)
    then have "map fst (all_data ?t) = map key ?ok"
      by (simp add: case_prod_beta comp_def)
    then show "distinct (map fst (all_data ?t))" using dk by simp
  }
  show "display_type r = display_type r'" if "key r = key r'"
    using key_inj [OF that] by simp
  show "control_type r = control_type r'" if "key r = key r'"
    using key_inj [OF that] by simp
  show "pb_type r = pb_type r'" if "key r = key r'"
    using key_inj [OF that] by simp
qed

theorem C3_aggregation_witness:
  "distinct (map (\<lambda>r. (display_type r, control_type r, pb_type r)) [result_ok, result_failed])
   \<and> map (\<lambda>(k, v). (k, Some v)) (all_data (fst (aggregate 240 [result_ok, result_failed]
          (\<lparr> all_data = [], successful_archives = 0, failed_archives = 0 \<rparr>, empty_world))))
      = [(''1_0_1'', Some ''[]'')]
   \<and> successful_archives (fst (aggregate 240 [result_ok, result_failed]
          (\<lparr> all_data = [], successful_archives = 0, failed_archives = 0 \<rparr>, empty_world))) = 1
   \<and> key result_ok \<noteq> key result_failed"
  using C3_aggregation [of 240 "[result_ok, result_failed]" empty_world result_ok result_failed]
  by (simp add: result_ok_def result_failed_def key_def str_int_def str_nat.simps digit_def
      consume_def Let_def logger_info_def logger_error_def empty_world_def)

section \<open>Properties of the run\<close>

lemma get_scores_world:
  "snd (get_scores self session dt ct pt w) =
     w\<lparr> posts := posts w @ [\<lparr> req_url = base_url self,
             req_json = [(''display_type'', dt), (''control_type'', ct), (''pb_type'', pt)],
             req_headers = [(''Authorization'', auth_token self),
                            (''Content-Type'', ''application/json'')] \<rparr>] \<rparr>"
  by (simp add: get_scores_def get_scores_try_def post_def Let_def split: sum.splits)

lemma get_scores_result_world:
  "fst (get_scores self session dt ct pt w) = fst (get_scores self session dt ct pt w')"
  by (simp add: get_scores_def get_scores_try_def post_def Let_def split: sum.splits)

lemma run_tasks_Cons:
  "run_tasks self session ((dt, ct, pt) # tasks) w =
     (fst (get_scores self session dt ct pt w)
        # fst (run_tasks self session tasks (snd (get_scores self session dt ct pt w))),
      snd (run_tasks self session tasks (snd (get_scores self session dt ct pt w))))"
  by (simp add: Let_def split: prod.splits)

lemma run_tasks_world:
  "files (snd (run_tasks self session tasks w)) = files w
   \<and> dirs (snd (run_tasks self session tasks w)) = dirs w
   \<and> log (snd (run_tasks self session tasks w)) = log w"
proof (induction tasks arbitrary: w)
  case Nil
  show ?case by simp
next
  case (Cons d tasks)
  obtain dt ct pt where d: "d = (dt, ct, pt)" by (cases d)
  obtain r w1 where g: "get_scores self session dt ct pt w = (r, w1)"
    by (cases "get_scores self session dt ct pt w")
  have w1: "files w1 = files w \<and> dirs w1 = dirs w \<and> log w1 = log w"
    using get_scores_world [of self session dt ct pt w] g by simp
  show ?case
    using Cons.IH [of w1] w1 by (simp only: d run_tasks_Cons g fst_conv snd_conv)
qed

lemma run_tasks_results:
  "fst (run_tasks self session tasks w) =
     map (\<lambda>(dt, ct, pt). fst (get_scores self session dt ct pt w')) tasks"
proof (induction tasks arbitrary: w)
  case Nil
  show ?case by simp
next
  case (Cons d tasks)
  obtain dt ct pt where d: "d = (dt, ct, pt)" by (cases d)
  obtain r w1 where g: "get_scores self session dt ct pt w = (r, w1)"
    by (cases "get_scores self session dt ct pt w")
  have r: "r = fst (get_scores self session dt ct pt w')"
    using get_scores_result_world [of self session dt ct pt w w'] g by simp
  show ?case
    using Cons.IH [of w1] r
    by (simp only: d run_tasks_Cons g fst_conv snd_conv list.map prod.case)
qed

lemma aggregate_world:
  "posts (snd (aggregate tc rs (t, w))) = posts w
   \<and> files (snd (aggregate tc rs (t, w))) = files w
   \<and> dirs (snd (aggregate tc rs (t, w))) = dirs w"
proof (induction rs arbitrary: t w)
  case Nil
  show ?case by simp
next
  case (Cons r rs)
  obtain t1 w1 where c: "consume tc r (t, w) = (t1, w1)"
    by (cases "consume tc r (t, w)")
  have "posts w1 = posts w \<and> files w1 = files w \<and> dirs w1 = dirs w"
    using consume_world [of tc r t w] c by simp
  then show ?case
    using Cons.IH [of t1 w1] by (simp add: c)
qed

lemma finish_no_success:
  "successful_archives t \<le> 0 \<Longrightarrow>
   finish env (t, w) =
     w\<lparr> log := log w @ [(ERROR, ''No successful archives to compress!''),
        (INFO, ''Archive completed! Successful: '' @ str_int (successful_archives t)
                 @ '', Failed: '' @ str_int (failed_archives t))] \<rparr>"
  by (simp add: finish_def logger_info_def logger_error_def)

lemma run_tasks_raising:
  "r \<in> set (fst (run_tasks self (raising e) tasks w)) \<Longrightarrow> \<not> status r"
proof -
  assume "r \<in> set (fst (run_tasks self (raising e) tasks w))"
  then have "r \<in> set (map (\<lambda>(dt, ct, pt). fst (get_scores self (raising e) dt ct pt w)) tasks)"
    by (simp only: run_tasks_results [of self "raising e" tasks w w])
  then obtain dt ct pt where "r = fst (get_scores self (raising e) dt ct pt w)"
    by auto
  then show ?thesis
    using get_scores_raise [of "raising e" self dt ct pt e w] by (simp add: raising_def)
qed

text \<open>
  Claim C6. When the counter of successes is zero after the loop, the last step leaves the
  world as it was but for two log records: the error \<open>No successful archives to compress!\<close>
  and the summary; the writer, which would have logged a record of its own, is not called.
  For the whole run: when no result of the tasks is a success, the files and directories
  after the run are those before it, and the error record is in the log.
\<close>

theorem C6_no_success_no_archive:
  "(successful_archives t \<le> 0 \<longrightarrow>
      finish env (t, w) =
        w\<lparr> log := log w @ [(ERROR, ''No successful archives to compress!''),
          (INFO, ''Archive completed! Successful: '' @ str_int (successful_archives t)
                   @ '', Failed: '' @ str_int (failed_archives t))] \<rparr>)
   \<and> ((\<forall>r \<in> set (fst (run_tasks self (ClientSession env) (as_completed env combinations) w)).
          \<not> (status r \<and> data r \<noteq> None)) \<longrightarrow>
        files (archive_all_combinations self env w) = files w
      \<and> dirs (archive_all_combinations self env w) = dirs w
      \<and> (ERROR, ''No successful archives to compress!'')
          \<in> set (log (archive_all_combinations self env w)))"
proof (intro conjI impI)
  assume "successful_archives t \<le> 0"
  then show "finish env (t, w) =
        w\<lparr> log := log w @ [(ERROR, ''No successful archives to compress!''),
          (INFO, ''Archive completed! Successful: '' @ str_int (successful_archives t)
                   @ '', Failed: '' @ str_int (failed_archives t))] \<rparr>"
    by (rule finish_no_success)
next
  let ?w0 = "logger_info (''Starting archive of '' @ str_int (int (length combinations))
                              @ '' combinations...'') w"
  let ?run = "run_tasks self (ClientSession env) (as_completed env combinations) ?w0"
  let ?start = "\<lparr> all_data = [], successful_archives = 0, failed_archives = 0 \<rparr>"
  let ?agg = "aggregate (int (length combinations)) (fst ?run) (?start, snd ?run)"
  assume a: "\<forall>r \<in> set (fst (run_tasks self (ClientSession env) (as_completed env combinations) w)).
          \<not> (status r \<and> data r \<noteq> None)"
  have same: "fst ?run = fst (run_tasks self (ClientSession env) (as_completed env combinations) w)"
    using run_tasks_results [of self "ClientSession env" "as_completed env combinations" ?w0 w]
      run_tasks_results [of self "ClientSession env" "as_completed env combinations" w w]
    by simp
  have "filter (\<lambda>r. status r \<and> data r \<noteq> None) (fst ?run) = []"
    using a unfolding same filter_empty_conv by blast
  then have z: "successful_archives (fst ?agg) = 0"
    using aggregate_successful [of "int (length combinations)" "fst ?run" ?start "snd ?run"]
    by simp
  have run: "archive_all_combinations self env w = finish env (fst ?agg, snd ?agg)"
    by (simp add: archive_all_combinations_def Let_def split: prod.splits)
  have fin: "finish env (fst ?agg, snd ?agg) =
     (snd ?agg)\<lparr> log := log (snd ?agg) @ [(ERROR, ''No successful archives to compress!''),
          (INFO, ''Archive completed! Successful: '' @ str_int (successful_archives (fst ?agg))
                   @ '', Failed: '' @ str_int (failed_archives (fst ?agg)))] \<rparr>"
    using z by (intro finish_no_success) simp
  have w2: "files (snd ?agg) = files w \<and> dirs (snd ?agg) = dirs w"
    using aggregate_world [of "int (length combinations)" "fst ?run" ?start "snd ?run"]
      run_tasks_world [of self "ClientSession env" "as_completed env combinations" ?w0]
    by (simp add: logger_info_def)
  show "files (archive_all_combinations self env w) = files w"
    using w2 by (simp only: run fin) simp
  show "dirs (archive_all_combinations self env w) = dirs w"
    using w2 by (simp only: run fin) simp
  show "(ERROR, ''No successful archives to compress!'')
          \<in> set (log (archive_all_combinations self env w))"
    by (simp only: run fin) simp
qed

theorem C6_no_success_no_archive_witness:
  "files (archive_all_combinations example_archiver failing_env empty_world) = Map.empty
   \<and> dirs (archive_all_combinations example_archiver failing_env empty_world) = {}
   \<and> (ERROR, ''No successful archives to compress!'')
          \<in> set (log (archive_all_combinations example_archiver failing_env empty_world))"
proof -
  have "\<forall>r \<in> set (fst (run_tasks example_archiver (ClientSession failing_env)
            (as_completed failing_env combinations) empty_world)).
          \<not> (status r \<and> data r \<noteq> None)"
    using run_tasks_raising by (auto simp add: failing_env_def)
  then show ?thesis
    using C6_no_success_no_archive
      [of "\<lparr> all_data = [], successful_archives = 0, failed_archives = 240 \<rparr>"
          failing_env empty_world example_archiver]
    by (simp add: empty_world_def)
qed

section \<open>Properties of the writer\<close>
















section \<open>Properties of the serialisation\<close>

lemma aggregate_all_data_fold:
  "all_data (fst (aggregate tc rs (t, w)))
   = foldl (\<lambda>d r. case data r of Some x \<Rightarrow> dict_setitem d (key r) x | None \<Rightarrow> d)
       (all_data t) (filter (\<lambda>r. status r \<and> data r \<noteq> None) rs)"
proof (induction rs arbitrary: t w)
  case Nil
  show ?case by simp
next
  case (Cons r rs)
  obtain t1 w1 where c: "consume tc r (t, w) = (t1, w1)"
    by (cases "consume tc r (t, w)")
  have t1: "all_data t1 =
      (if status r \<and> data r \<noteq> None
       then (case data r of Some x \<Rightarrow> dict_setitem (all_data t) (key r) x | None \<Rightarrow> all_data t)
       else all_data t)"
    using consume_tally [of tc r t w] c by (auto split: option.splits if_splits)
  show ?case
    using Cons.IH [of t1 w1] by (simp add: c t1)
qed

lemma all_data_ok_ok2:
  "all_data (fst (aggregate 240 [result_ok, result_ok2]
        (\<lparr> all_data = [], successful_archives = 0, failed_archives = 0 \<rparr>, empty_world)))
     = [(''1_0_1'', ''[]''), (''1_0_2'', ''{}'')]"
  by (simp add: result_ok_def result_ok2_def key_def str_int_def str_nat.simps digit_def
      consume_def Let_def logger_info_def logger_error_def empty_world_def)

lemma all_data_ok2_ok:
  "all_data (fst (aggregate 240 [result_ok2, result_ok]
        (\<lparr> all_data = [], successful_archives = 0, failed_archives = 0 \<rparr>, empty_world)))
     = [(''1_0_2'', ''{}''), (''1_0_1'', ''[]'')]"
  by (simp add: result_ok_def result_ok2_def key_def str_int_def str_nat.simps digit_def
      consume_def Let_def logger_info_def logger_error_def empty_world_def)

lemma dumps_ok_ok2:
  \<open>json_dumps ''2026-01-01T00:00:00'' [(''1_0_1'', ''[]''), (''1_0_2'', ''{}'')]
     = ''{"timestamp":"2026-01-01T00:00:00","data":{"1_0_1":"[]","1_0_2":"{}"}}''\<close>
  by (simp add: json_dumps_def dumps_dict_def encode_basestring_ascii_def escape_char_def)

lemma dumps_ok2_ok:
  \<open>json_dumps ''2026-01-01T00:00:00'' [(''1_0_2'', ''{}''), (''1_0_1'', ''[]'')]
     = ''{"timestamp":"2026-01-01T00:00:00","data":{"1_0_2":"{}","1_0_1":"[]"}}''\<close>
  by (simp add: json_dumps_def dumps_dict_def encode_basestring_ascii_def escape_char_def)

text \<open>
  Claim C4, as stated, fails: the document keeps its keys in the order in which the
  successes were consumed, and the serialisation writes them in that order. Two runs that
  consume the same two successes in opposite orders, with the same timestamp, serialise to
  different texts.
\<close>

theorem C4_counterexample:
  \<open>set [result_ok, result_ok2] = set [result_ok2, result_ok]
   \<and> json_dumps ''2026-01-01T00:00:00'' (all_data (fst (aggregate 240 [result_ok, result_ok2]
        (\<lparr> all_data = [], successful_archives = 0, failed_archives = 0 \<rparr>, empty_world))))
      = ''{"timestamp":"2026-01-01T00:00:00","data":{"1_0_1":"[]","1_0_2":"{}"}}''
   \<and> json_dumps ''2026-01-01T00:00:00'' (all_data (fst (aggregate 240 [result_ok2, result_ok]
        (\<lparr> all_data = [], successful_archives = 0, failed_archives = 0 \<rparr>, empty_world))))
      = ''{"timestamp":"2026-01-01T00:00:00","data":{"1_0_2":"{}","1_0_1":"[]"}}''
   \<and> json_dumps ''2026-01-01T00:00:00'' (all_data (fst (aggregate 240 [result_ok, result_ok2]
        (\<lparr> all_data = [], successful_archives = 0, failed_archives = 0 \<rparr>, empty_world))))
      \<noteq> json_dumps ''2026-01-01T00:00:00'' (all_data (fst (aggregate 240 [result_ok2, result_ok]
        (\<lparr> all_data = [], successful_archives = 0, failed_archives = 0 \<rparr>, empty_world))))\<close>
proof (intro conjI)
  show "set [result_ok, result_ok2] = set [result_ok2, result_ok]"
    by auto
  show "json_dumps ''2026-01-01T00:00:00'' (all_data (fst (aggregate 240 [result_ok, result_ok2]
        (\<lparr> all_data = [], successful_archives = 0, failed_archives = 0 \<rparr>, empty_world))))
      \<noteq> json_dumps ''2026-01-01T00:00:00'' (all_data (fst (aggregate 240 [result_ok2, result_ok]
        (\<lparr> all_data = [], successful_archives = 0, failed_archives = 0 \<rparr>, empty_world))))"
    by (simp only: all_data_ok_ok2 all_data_ok2_ok dumps_ok_ok2 dumps_ok2_ok) simp
qed (simp_all only: all_data_ok_ok2 all_data_ok2_ok dumps_ok_ok2 dumps_ok2_ok)

text \<open>
  Claim C4, amended. When two runs consume the same successes in the same order, whatever
  failures come in between, they build the same document, keys in the same order, and the
  two serialised texts are the same fixed prefix, the encoded timestamp of the run, and the
  same suffix, which encodes the document: they differ in the timestamp only.
\<close>

theorem C4_payload_differs_in_timestamp_only:
  assumes "filter (\<lambda>r. status r \<and> data r \<noteq> None) rs1
           = filter (\<lambda>r. status r \<and> data r \<noteq> None) rs2"
  shows "all_data (fst (aggregate tc1 rs1
            (\<lparr> all_data = [], successful_archives = 0, failed_archives = 0 \<rparr>, w1)))
         = all_data (fst (aggregate tc2 rs2
            (\<lparr> all_data = [], successful_archives = 0, failed_archives = 0 \<rparr>, w2)))
       \<and> json_dumps ts1 (all_data (fst (aggregate tc1 rs1
            (\<lparr> all_data = [], successful_archives = 0, failed_archives = 0 \<rparr>, w1))))
         = ''{'' @ encode_basestring_ascii ''timestamp'' @ '':''
             @ encode_basestring_ascii ts1
             @ '','' @ encode_basestring_ascii ''data'' @ '':''
             @ dumps_dict (all_data (fst (aggregate tc1 rs1
                 (\<lparr> all_data = [], successful_archives = 0, failed_archives = 0 \<rparr>, w1)))) @ ''}''
       \<and> json_dumps ts2 (all_data (fst (aggregate tc2 rs2
            (\<lparr> all_data = [], successful_archives = 0, failed_archives = 0 \<rparr>, w2))))
         = ''{'' @ encode_basestring_ascii ''timestamp'' @ '':''
             @ encode_basestring_ascii ts2
             @ '','' @ encode_basestring_ascii ''data'' @ '':''
             @ dumps_dict (all_data (fst (aggregate tc1 rs1
                 (\<lparr> all_data = [], successful_archives = 0, failed_archives = 0 \<rparr>, w1)))) @ ''}''"
proof -
  have e: "all_data (fst (aggregate tc1 rs1
            (\<lparr> all_data = [], successful_archives = 0, failed_archives = 0 \<rparr>, w1)))
         = all_data (fst (aggregate tc2 rs2
            (\<lparr> all_data = [], successful_archives = 0, failed_archives = 0 \<rparr>, w2)))"
    by (simp only: aggregate_all_data_fold assms)
  show ?thesis
    by (simp only: e [symmetric] json_dumps_def simp_thms)
qed

lemma all_data_ok_failed:
  "all_data (fst (aggregate 240 [result_ok, result_failed]
        (\<lparr> all_data = [], successful_archives = 0, failed_archives = 0 \<rparr>, empty_world)))
     = [(''1_0_1'', ''[]'')]"
  by (simp add: result_ok_def result_failed_def key_def str_int_def str_nat.simps digit_def
      consume_def Let_def logger_info_def logger_error_def empty_world_def)

lemma dumps_ok_1:
  \<open>json_dumps ''2026-01-01T00:00:00'' [(''1_0_1'', ''[]'')]
     = ''{"timestamp":"2026-01-01T00:00:00","data":{"1_0_1":"[]"}}''\<close>
  by (simp add: json_dumps_def dumps_dict_def encode_basestring_ascii_def escape_char_def)

theorem C4_payload_differs_in_timestamp_only_witness:
  \<open>filter (\<lambda>r. status r \<and> data r \<noteq> None) [result_ok, result_failed]
     = filter (\<lambda>r. status r \<and> data r \<noteq> None) [result_failed, result_ok]
   \<and> json_dumps ''2026-01-01T00:00:00'' (all_data (fst (aggregate 240 [result_failed, result_ok]
        (\<lparr> all_data = [], successful_archives = 0, failed_archives = 0 \<rparr>, empty_world))))
     = ''{"timestamp":"2026-01-01T00:00:00","data":{"1_0_1":"[]"}}''\<close>
proof -
  have f: "filter (\<lambda>r. status r \<and> data r \<noteq> None) [result_ok, result_failed]
     = filter (\<lambda>r. status r \<and> data r \<noteq> None) [result_failed, result_ok]"
    by (simp add: result_ok_def result_failed_def)
  have "all_data (fst (aggregate 240 [result_failed, result_ok]
        (\<lparr> all_data = [], successful_archives = 0, failed_archives = 0 \<rparr>, empty_world)))
     = [(''1_0_1'', ''[]'')]"
    using C4_payload_differs_in_timestamp_only [OF f, of 240 empty_world 240 empty_world]
    by (simp only: all_data_ok_failed)
  then show ?thesis
    using f by (simp only: dumps_ok_1 simp_thms)
qed

section \<open>Properties of the reader: the round trip\<close>





























end
